theory Spec2Isabelle
  imports Main "HOL-Library.Sublist" "HOL-Library.AList"
begin

section \<open>Strings and regular expression objects\<close>

text \<open>
  A JavaScript string is a sequence of UTF-16 code units; \<open>length\<close>, indexing and
  \<open>includes\<close> all work on code units. A \<^typ>\<open>string\<close> below is that sequence, one
  \<^typ>\<open>char\<close> per code unit.
\<close>

text \<open>\<^verbatim>\<open>target.includes(pattern)\<close>: the pattern occurs at some position of the target.\<close>

fun includes_str :: "string \<Rightarrow> string \<Rightarrow> bool" where
  "includes_str [] p = (p = [])"
| "includes_str (c # cs) p = (prefix p (c # cs) \<or> includes_str cs p)"

text \<open>
  A \<open>RegExp\<close> is an object of the runtime: its properties \<open>source\<close> (the text of
  its pattern, as a literal of the expression writes it) and \<open>flags\<close>, and the mutable
  \<open>lastIndex\<close> property. Rules hold references to such objects, and two rules may hold
  the same one (the rule sets shared by the presets do), so the objects live in a heap.
\<close>

record regexp =
  source :: string
  flags :: string
  lastIndex :: nat

type_synonym ref = nat
type_synonym heap = "ref \<Rightarrow> regexp"

text \<open>
  The matcher of the runtime is not code of this repository; every function that reaches
  it takes it as the parameter \<open>m\<close>. \<open>m r s i\<close> searches the subject \<open>s\<close> for the
  expression \<open>r\<close> from position \<open>i\<close> on (at position \<open>i\<close> only when \<open>r\<close> is sticky)
  and yields the position where the match it finds ends.
\<close>

type_synonym engine = "regexp \<Rightarrow> string \<Rightarrow> nat \<Rightarrow> nat option"

definition is_global :: "regexp \<Rightarrow> bool" where
  "is_global r = (CHR ''g'' \<in> set (flags r))"

definition is_sticky :: "regexp \<Rightarrow> bool" where
  "is_sticky r = (CHR ''y'' \<in> set (flags r))"

text \<open>
  \<^verbatim>\<open>pattern.test(target)\<close>, as the language standard defines it: an expression with the
  \<open>g\<close> or \<open>y\<close> flag starts at its \<open>lastIndex\<close>, stores the end of the match there when
  it finds one and resets it to \<open>0\<close> when it finds none; any other expression starts
  at \<open>0\<close> and leaves \<open>lastIndex\<close> alone.
\<close>

definition regexp_test :: "engine \<Rightarrow> regexp \<Rightarrow> string \<Rightarrow> bool \<times> regexp" where
  "regexp_test m r s =
     (if is_global r \<or> is_sticky r then
        (if length s < lastIndex r then (False, r\<lparr>lastIndex := 0\<rparr>)
         else (case m r s (lastIndex r) of
                 None \<Rightarrow> (False, r\<lparr>lastIndex := 0\<rparr>)
               | Some e \<Rightarrow> (True, r\<lparr>lastIndex := e\<rparr>)))
      else (m r s 0 \<noteq> None, r))"

text \<open>
  For evaluating concrete inputs: the matcher on sources that contain no metacharacter
  and carry no flag other than \<open>g\<close> and \<open>y\<close>, where it is a search for the source
  itself.
\<close>

fun find_at :: "string \<Rightarrow> string \<Rightarrow> nat \<Rightarrow> nat option" where
  "find_at pat [] k = (if pat = [] then Some k else None)"
| "find_at pat (c # cs) k =
     (if prefix pat (c # cs) then Some (k + length pat) else find_at pat cs (Suc k))"

definition literal_engine :: engine where
  "literal_engine r s i =
     (if is_sticky r then
        (if prefix (source r) (drop i s) then Some (i + length (source r)) else None)
      else find_at (source r) (drop i s) i)"

section \<open>Rules and rule matching\<close>

text \<open>
  Modelled from the spec: the declarations of \<open>RuleAction\<close>, \<open>BaseRule\<close>, \<open>FileRule\<close>,
  \<open>EnvRule\<close> and \<open>CliRule\<close> in \<open>./types\<close>, a file that is not among the sources. The
  actions are the four that the tests list.
\<close>

datatype rule_action = Allow | Deny | Mask | Rewrite

text \<open>\<^verbatim>\<open>match: string | RegExp\<close>, as the signature of \<open>matchesPattern\<close> has it.\<close>

datatype pattern = Str string | Rx ref

text \<open>
  Modelled from the spec: \<open>BaseRule\<close> (\<open>match\<close>, \<open>action\<close>, optional \<open>reason\<close>) with
  the optional fields of its specialisations (\<open>replacement\<close> of an \<open>EnvRule\<close>,
  \<open>safeAlternatives\<close> of a \<open>CliRule\<close>), declared in \<open>./types\<close>; \<open>None\<close> is an absent
  key. Further fields fit in the record's extension.
\<close>

record policy_rule =
  match :: pattern
  action :: rule_action
  reason :: "string option"
  replacement :: "string option"
  safeAlternatives :: "string list option"

definition matchesPattern :: "engine \<Rightarrow> string \<Rightarrow> pattern \<Rightarrow> heap \<Rightarrow> bool \<times> heap" where
  "matchesPattern m target p h =
     (case p of
        Str s \<Rightarrow> (target = s \<or> includes_str target s, h)
      | Rx a \<Rightarrow> (case regexp_test m (h a) target of (b, r') \<Rightarrow> (b, h(a := r'))))"

text \<open>\<^verbatim>\<open>{ rule, index }\<close>\<close>

record 'r rule_match =
  rule :: 'r
  index :: nat

text \<open>
  The \<open>for\<close> loop of \<open>findMatchingRule\<close>, from index \<open>i\<close> on. The guard \<open>rule &&\<close> of
  the source is true for every element of a rule array.
\<close>

function findMatchingRule_from ::
  "engine \<Rightarrow> string \<Rightarrow> 'z policy_rule_scheme list \<Rightarrow> nat \<Rightarrow> heap \<Rightarrow>
     'z policy_rule_scheme rule_match option \<times> heap" where
  "findMatchingRule_from m target rules i h =
     (if i < length rules then
        (case matchesPattern m target (match (rules ! i)) h of
           (b, h') \<Rightarrow>
             if b then (Some \<lparr>rule = rules ! i, index = i\<rparr>, h')
             else findMatchingRule_from m target rules (i + 1) h')
      else (None, h))"
  by pat_completeness auto
termination
  by (relation "measure (\<lambda>(m, target, rules, i, h). length rules - i)") auto

declare findMatchingRule_from.simps [simp del]

definition findMatchingRule ::
  "engine \<Rightarrow> string \<Rightarrow> 'z policy_rule_scheme list \<Rightarrow> heap \<Rightarrow>
     'z policy_rule_scheme rule_match option \<times> heap" where
  "findMatchingRule m target rules h = findMatchingRule_from m target rules 0 h"

text \<open>
  The heap when the scan reaches index \<open>i\<close>, no earlier rule having matched, and the
  outcome of the test the scan makes there.
\<close>

fun heap_at :: "engine \<Rightarrow> string \<Rightarrow> 'z policy_rule_scheme list \<Rightarrow> heap \<Rightarrow> nat \<Rightarrow> heap" where
  "heap_at m t R h 0 = h"
| "heap_at m t R h (Suc i) = snd (matchesPattern m t (match (R ! i)) (heap_at m t R h i))"

definition matches_at ::
  "engine \<Rightarrow> string \<Rightarrow> 'z policy_rule_scheme list \<Rightarrow> heap \<Rightarrow> nat \<Rightarrow> bool" where
  "matches_at m t R h i = fst (matchesPattern m t (match (R ! i)) (heap_at m t R h i))"

text \<open>A pattern whose test writes nothing: a string, or an expression without \<open>g\<close> and \<open>y\<close>.\<close>

definition stateless :: "heap \<Rightarrow> pattern \<Rightarrow> bool" where
  "stateless h p =
     (case p of Str s \<Rightarrow> True | Rx a \<Rightarrow> \<not> (is_global (h a) \<or> is_sticky (h a)))"

text \<open>
  Whether a target matches a pattern, wherever an earlier test has left the expression:
  the outcome of \<open>matchesPattern\<close> with every \<open>lastIndex\<close> back at \<open>0\<close>.
\<close>

definition pattern_matches :: "engine \<Rightarrow> heap \<Rightarrow> string \<Rightarrow> pattern \<Rightarrow> bool" where
  "pattern_matches m h t p = fst (matchesPattern m t p (\<lambda>a. (h a)\<lparr>lastIndex := 0\<rparr>))"

text \<open>\<^verbatim>\<open>"safeAlternatives" in rule\<close> asks whether the key is present.\<close>

definition getRuleTypeName :: "'z policy_rule_scheme \<Rightarrow> string" where
  "getRuleTypeName r = (if safeAlternatives r \<noteq> None then ''cliRules'' else ''rules'')"

text \<open>The decimal digits of an array index, as a template literal prints it.\<close>

fun number_to_string :: "nat \<Rightarrow> string" where
  "number_to_string n =
     (if n < 10 then [''0123456789'' ! n]
      else number_to_string (n div 10) @ [''0123456789'' ! (n mod 10)])"

declare number_to_string.simps [simp del]

text \<open>\<^verbatim>\<open>{ action, rule, policyRef }\<close>\<close>

record 'r evaluation =
  ev_action :: rule_action
  ev_rule :: 'r
  policyRef :: string

definition evaluateRules ::
  "engine \<Rightarrow> string \<Rightarrow> 'z policy_rule_scheme list \<Rightarrow> heap \<Rightarrow>
     'z policy_rule_scheme evaluation option \<times> heap" where
  "evaluateRules m target rules h =
     (case findMatchingRule m target rules h of
        (None, h') \<Rightarrow> (None, h')
      | (Some found, h') \<Rightarrow>
          (Some \<lparr>ev_action = action (rule found), ev_rule = rule found,
                 policyRef = getRuleTypeName (rule found) @ ''['' @
                   number_to_string (index found) @ '']''\<rparr>, h'))"

text \<open>\<^verbatim>\<open>generatePolicyRef(ruleType, index)\<close>\<close>

definition generatePolicyRef :: "string \<Rightarrow> nat \<Rightarrow> string" where
  "generatePolicyRef ruleType i = ruleType @ ''['' @ number_to_string i @ '']''"

section \<open>Rule packs\<close>

datatype error = TypeError | SyntaxError

datatype RuleSeverity = Error | Warn | Off

text \<open>\<^verbatim>\<open>RuleConfig = RuleSeverity | [RuleSeverity, Record<string, unknown>]\<close>\<close>

datatype RuleConfig = Severity RuleSeverity | WithOptions RuleSeverity "(string \<times> string) list"

text \<open>
  A \<open>RulesConfig\<close> is an object with one key per rule id. Its keys are enumerated in
  the order of their first assignment, so the object is an association list with
  distinct keys; as a mapping from rule ids to severities it is \<open>map_of\<close> of that
  list. An assignment to a key that is there keeps the key's place, and to a new key
  appends it, which is \<open>AList.update\<close>.
\<close>

type_synonym RulesConfig = "(string \<times> RuleConfig) list"

record RulePack =
  name :: string
  description :: string
  rules :: "string list"

definition RULE_PACKS :: "(string \<times> RulePack) list" where
  "RULE_PACKS =
  [
   (''security:recommended'',
      \<lparr>name = ''Security Recommended'',
       description = ''Essential security rules for any project'',
       rules =
        [''env/mask-aws'', ''env/mask-azure'', ''env/mask-gcp'', ''env/deny-passwords'',
         ''env/mask-tokens'', ''env/mask-secrets'', ''env/deny-database-urls'',
         ''fs/hide-env-files'', ''fs/hide-private-keys'', ''cli/no-curl-pipe-bash'',
         ''cli/no-credential-echo'']\<rparr>),
   (''security:strict'',
      \<lparr>name = ''Security Strict'',
       description = ''Maximum security - blocks more aggressively'',
       rules =
        [''env/mask-aws'', ''env/mask-azure'', ''env/mask-gcp'', ''env/deny-passwords'',
         ''env/mask-tokens'', ''env/mask-secrets'', ''env/deny-database-urls'',
         ''fs/hide-env-files'', ''fs/hide-private-keys'', ''fs/hide-docker-config'',
         ''fs/hide-npm-config'', ''fs/hide-git-credentials'', ''cli/no-curl-pipe-bash'',
         ''cli/no-wget-pipe-bash'', ''cli/no-credential-echo'',
         ''cli/no-curl-with-password'']\<rparr>),
   (''platform:windows'',
      \<lparr>name = ''Windows'',
       description = ''Windows-specific protections'',
       rules =
        [''win/no-delete-system32'', ''win/no-delete-windows'',
         ''win/no-delete-program-files'', ''win/no-format-drive'',
         ''win/no-delete-above-cwd'', ''win/no-modify-registry'', ''win/hide-ntuser'',
         ''win/hide-sam'', ''win/hide-credential-manager'']\<rparr>),
   (''platform:darwin'',
      \<lparr>name = ''macOS'',
       description = ''macOS-specific protections'',
       rules =
        [''darwin/no-delete-system'', ''darwin/no-delete-library'',
         ''darwin/no-delete-applications'', ''darwin/no-delete-above-cwd'',
         ''darwin/hide-keychain'', ''darwin/no-security-dump'', ''darwin/hide-ssh'',
         ''darwin/no-disable-sip'']\<rparr>),
   (''platform:linux'',
      \<lparr>name = ''Linux'',
       description = ''Linux-specific protections'',
       rules =
        [''linux/no-delete-root'', ''linux/no-delete-boot'', ''linux/no-delete-etc'',
         ''linux/no-delete-var'', ''linux/no-delete-above-cwd'',
         ''linux/no-delete-home-recursive'', ''linux/no-dd-to-disk'', ''linux/no-mkfs'',
         ''linux/hide-shadow'', ''linux/hide-ssh'', ''linux/hide-gnupg'',
         ''linux/no-fork-bomb'', ''linux/no-chmod-777-recursive'']\<rparr>),
   (''context:dev'',
      \<lparr>name = ''Development'',
       description = ''Rules for local development'',
       rules =
        [''fs/hide-node-modules'', ''fs/hide-vcs'', ''fs/hide-build-output'',
         ''fs/hide-env-files'', ''fs/hide-private-keys'', ''env/mask-tokens'',
         ''env/mask-secrets'']\<rparr>),
   (''context:ci'',
      \<lparr>name = ''CI/CD'',
       description = ''Rules for CI/CD pipelines'',
       rules =
        [''env/mask-aws'', ''env/mask-azure'', ''env/mask-gcp'', ''env/deny-passwords'',
         ''env/mask-tokens'', ''fs/hide-private-keys'', ''cli/no-curl-pipe-bash'']\<rparr>),
   (''context:production'',
      \<lparr>name = ''Production'',
       description = ''Maximum protection for production environments'',
       rules =
        [''env/mask-aws'', ''env/mask-azure'', ''env/mask-gcp'', ''env/deny-passwords'',
         ''env/mask-tokens'', ''env/mask-secrets'', ''env/deny-database-urls'',
         ''fs/hide-env-files'', ''fs/hide-private-keys'', ''fs/hide-docker-config'',
         ''cli/no-curl-pipe-bash'', ''cli/no-credential-echo'',
         ''cli/no-curl-with-password'']\<rparr>),
   (''minimal'',
      \<lparr>name = ''Minimal'',
       description = ''Just the essentials'',
       rules =
        [''fs/hide-env-files'', ''env/deny-passwords'', ''env/mask-tokens'']\<rparr>)]"

text \<open>
  \<open>RULE_PACKS\<close> is an object literal, so \<^verbatim>\<open>RULE_PACKS[packName]\<close> also finds what the
  object inherits from \<open>Object.prototype\<close>. Each of these members is a function or an
  object, hence truthy, and none of them has a property \<open>rules\<close>.
\<close>

definition Object_prototype_keys :: "string list" where
  "Object_prototype_keys =
     [''constructor'', ''__defineGetter__'', ''__defineSetter__'', ''hasOwnProperty'',
      ''__lookupGetter__'', ''__lookupSetter__'', ''isPrototypeOf'',
      ''propertyIsEnumerable'', ''toString'', ''valueOf'', ''__proto__'',
      ''toLocaleString'']"

datatype 'a property = Undefined | Own 'a | Inherited

definition get_property :: "(string \<times> 'a) list \<Rightarrow> string \<Rightarrow> 'a property" where
  "get_property obj key =
     (case map_of obj key of
        Some v \<Rightarrow> Own v
      | None \<Rightarrow> if key \<in> set Object_prototype_keys then Inherited else Undefined)"

text \<open>The inner loop: \<^verbatim>\<open>config[ruleId] = "error"\<close> for every rule id of the pack.\<close>

fun set_rules :: "string list \<Rightarrow> RulesConfig \<Rightarrow> RulesConfig" where
  "set_rules [] config = config"
| "set_rules (ruleId # ids) config =
     set_rules ids (AList.update ruleId (Severity Error) config)"

text \<open>\<^verbatim>\<open>`Unknown rule pack: ${packName}`\<close>\<close>

definition unknown_pack_warning :: "string \<Rightarrow> string" where
  "unknown_pack_warning packName = ''Unknown rule pack: '' @ packName"

text \<open>
  The outer loop of \<open>fromPacks\<close>, with the configuration built so far and the lines
  written by \<open>console.warn\<close>. A pack that is \<open>undefined\<close> is reported and skipped.
  An inherited member passes the check \<open>!pack\<close>; its \<open>rules\<close> is \<open>undefined\<close>, and
  \<open>for ... of undefined\<close> throws a \<open>TypeError\<close>.
\<close>

fun fromPacks_loop ::
  "string list \<Rightarrow> RulesConfig \<times> string list \<Rightarrow> error + RulesConfig \<times> string list" where
  "fromPacks_loop [] st = Inr st"
| "fromPacks_loop (packName # packNames) (config, warned) =
     (case get_property RULE_PACKS packName of
        Undefined \<Rightarrow>
          fromPacks_loop packNames (config, warned @ [unknown_pack_warning packName])
      | Inherited \<Rightarrow> Inl TypeError
      | Own pack \<Rightarrow> fromPacks_loop packNames (set_rules (rules pack) config, warned))"

definition fromPacks :: "string list \<Rightarrow> error + RulesConfig \<times> string list" where
  "fromPacks packNames = fromPacks_loop packNames ([], [])"

text \<open>The rule ids of the packs that the names of a list select from \<open>RULE_PACKS\<close>.\<close>

definition pack_rule_ids :: "string list \<Rightarrow> string set" where
  "pack_rule_ids packNames =
     {ruleId. \<exists>packName \<in> set packNames. \<exists>pack.
        map_of RULE_PACKS packName = Some pack \<and> ruleId \<in> set (rules pack)}"

section \<open>Configurations\<close>

text \<open>
  Modelled from the spec: \<open>VeilConfig\<close>, declared in \<open>./types\<close>, a file that is not
  among the sources. It has the three rule lists, each optional, here over any type of
  rule, and the injector hooks \<open>files\<close>, \<open>env\<close> and \<open>directories\<close>, each optional
  too; a hook that returns \<open>null\<close> returns \<open>None\<close>.
\<close>

record 'r rule_lists =
  fileRules :: "'r list option"
  envRules :: "'r list option"
  cliRules :: "'r list option"

record injectors =
  files :: "(string \<Rightarrow> string option) option"
  env :: "(string \<Rightarrow> string option) option"
  directories :: "(string \<Rightarrow> string list option) option"

record 'r VeilConfig = "'r rule_lists" +
  injectors :: injectors

subsection \<open>Reading a configuration from JSON\<close>

text \<open>
  \<open>parseJsonConfig\<close> is modelled from the value that \<open>JSON.parse\<close> returns. A rule of
  that value is its \<open>match\<close>, which is a string or some other JSON value, paired with
  its remaining fields; the spread \<^verbatim>\<open>{ ...rule, match: convertMatch(rule.match) }\<close>
  keeps the remaining fields and replaces the match.
\<close>

datatype 'v parsed_match = PString string | POther 'v

datatype 'v converted_match = CString string | CRegExp regexp | COther 'v

text \<open>
  \<^verbatim>\<open>new RegExp(pattern, flags)\<close> throws a \<open>SyntaxError\<close> when the runtime rejects the
  pattern; \<open>valid\<close> is that check of the runtime. The \<open>source\<close> of the new object is
  not the pattern as it was passed but the pattern as the runtime escapes it, so that
  \<open>/source/flags\<close> reads as the same expression: a \<open>/\<close> and a line terminator in the
  pattern come out escaped. \<open>esc\<close> is that escaping of the runtime. A new object has
  \<open>lastIndex = 0\<close>.
\<close>

definition new_RegExp ::
  "(string \<Rightarrow> string \<Rightarrow> bool) \<Rightarrow> (string \<Rightarrow> string) \<Rightarrow> string \<Rightarrow> string \<Rightarrow>
     error + regexp" where
  "new_RegExp valid esc pat fl =
     (if valid pat fl then Inr \<lparr>source = esc pat, flags = fl, lastIndex = 0\<rparr>
      else Inl SyntaxError)"

text \<open>
  For evaluating concrete inputs: a syntax check that rejects the source \<open>^(\<close>, whose
  group is never closed, as the runtime does.
\<close>

definition rejects_unclosed_group :: "string \<Rightarrow> string \<Rightarrow> bool" where
  "rejects_unclosed_group src fl = (src \<noteq> ''^('')"

text \<open>
  For evaluating concrete inputs: the escaping of the runtime on a pattern that has no
  backslash, no character class and no line terminator, where it puts a backslash
  before every \<open>/\<close> and leaves the rest.
\<close>

definition escape_slashes :: "string \<Rightarrow> string" where
  "escape_slashes pat =
     concat (map (\<lambda>c. if c = CHR ''/'' then [CHR 0x5C, CHR ''/''] else [c]) pat)"

text \<open>\<^verbatim>\<open>match.startsWith("^")\<close>\<close>

definition startsWith :: "string \<Rightarrow> string \<Rightarrow> bool" where
  "startsWith s p = prefix p s"

definition convertMatch ::
  "(string \<Rightarrow> string \<Rightarrow> bool) \<Rightarrow> (string \<Rightarrow> string) \<Rightarrow> 'v parsed_match \<Rightarrow>
     error + 'v converted_match" where
  "convertMatch valid esc mt =
     (case mt of
        POther v \<Rightarrow> Inr (COther v)
      | PString s \<Rightarrow>
          if startsWith s ''^'' \<or> includes_str s ''|'' then
            (case new_RegExp valid esc s ''i'' of Inl e \<Rightarrow> Inl e | Inr r \<Rightarrow> Inr (CRegExp r))
          else Inr (CString s))"

text \<open>\<open>Array.prototype.map\<close> with a callback that may throw: the first throw ends it.\<close>

fun map_rules ::
  "(string \<Rightarrow> string \<Rightarrow> bool) \<Rightarrow> (string \<Rightarrow> string) \<Rightarrow> ('v parsed_match \<times> 'f) list \<Rightarrow>
     error + ('v converted_match \<times> 'f) list" where
  "map_rules valid esc [] = Inr []"
| "map_rules valid esc ((mt, rest) # rs) =
     (case convertMatch valid esc mt of
        Inl e \<Rightarrow> Inl e
      | Inr mt' \<Rightarrow>
          (case map_rules valid esc rs of
             Inl e \<Rightarrow> Inl e
           | Inr rs' \<Rightarrow> Inr ((mt', rest) # rs')))"

text \<open>\<^verbatim>\<open>if (parsed.fileRules) { result.fileRules = parsed.fileRules.map(...) }\<close>\<close>

definition map_list ::
  "(string \<Rightarrow> string \<Rightarrow> bool) \<Rightarrow> (string \<Rightarrow> string) \<Rightarrow>
     ('v parsed_match \<times> 'f) list option \<Rightarrow> error + ('v converted_match \<times> 'f) list option" where
  "map_list valid esc l =
     (case l of
        None \<Rightarrow> Inr None
      | Some rs \<Rightarrow>
          (case map_rules valid esc rs of Inl e \<Rightarrow> Inl e | Inr rs' \<Rightarrow> Inr (Some rs')))"

definition parseJsonConfig ::
  "(string \<Rightarrow> string \<Rightarrow> bool) \<Rightarrow> (string \<Rightarrow> string) \<Rightarrow>
     (('v parsed_match \<times> 'f), 'z) rule_lists_scheme \<Rightarrow>
     error + ('v converted_match \<times> 'f) rule_lists" where
  "parseJsonConfig valid esc parsed =
     (case map_list valid esc (fileRules parsed) of
        Inl e \<Rightarrow> Inl e
      | Inr fs \<Rightarrow>
          (case map_list valid esc (envRules parsed) of
             Inl e \<Rightarrow> Inl e
           | Inr es \<Rightarrow>
               (case map_list valid esc (cliRules parsed) of
                  Inl e \<Rightarrow> Inl e
                | Inr cs \<Rightarrow> Inr \<lparr>fileRules = fs, envRules = es, cliRules = cs\<rparr>)))"

text \<open>
  What the conversion is to deliver for one rule: a string that begins with \<open>^\<close> or
  contains \<open>|\<close> becomes a new case-insensitive expression whose source is that string
  as the runtime escapes it, any other string stays a literal, any other value passes
  through; the remaining fields stay.
\<close>

definition regex_like :: "string \<Rightarrow> bool" where
  "regex_like s = ((s \<noteq> [] \<and> hd s = CHR ''^'') \<or> CHR ''|'' \<in> set s)"

definition converted_rule ::
  "(string \<Rightarrow> string) \<Rightarrow> 'v parsed_match \<times> 'f \<Rightarrow> 'v converted_match \<times> 'f \<Rightarrow> bool" where
  "converted_rule esc r r' =
     (snd r' = snd r \<and>
      (case fst r of
         POther v \<Rightarrow> fst r' = COther v
       | PString s \<Rightarrow>
           if regex_like s
           then fst r' = CRegExp \<lparr>source = esc s, flags = ''i'', lastIndex = 0\<rparr>
           else fst r' = CString s))"

definition converted_list ::
  "(string \<Rightarrow> string) \<Rightarrow> ('v parsed_match \<times> 'f) list option \<Rightarrow>
     ('v converted_match \<times> 'f) list option \<Rightarrow> bool" where
  "converted_list esc l l' =
     (case l of
        None \<Rightarrow> l' = None
      | Some rs \<Rightarrow>
          (\<exists>rs'. l' = Some rs' \<and> length rs' = length rs \<and>
             (\<forall>i<length rs. converted_rule esc (rs ! i) (rs' ! i))))"

definition regex_sources :: "('v parsed_match \<times> 'f) list option \<Rightarrow> string set" where
  "regex_sources l =
     {s. \<exists>rs rest. l = Some rs \<and> (PString s, rest) \<in> set rs \<and> regex_like s}"

subsection \<open>Merging configurations\<close>

text \<open>The rules of a list that may be absent; an absent list has none.\<close>

definition rules_of :: "'r list option \<Rightarrow> 'r list" where
  "rules_of l = (case l of None \<Rightarrow> [] | Some rs \<Rightarrow> rs)"

text \<open>
  Modelled from the spec: the shallow merge of the injector hooks, a later configuration's
  hook for a resource kind overriding an earlier one.
\<close>

definition override :: "'a option \<Rightarrow> 'a option \<Rightarrow> 'a option" where
  "override earlier later = (case later of None \<Rightarrow> earlier | Some x \<Rightarrow> Some x)"

text \<open>Modelled from the spec: the merge of no configuration, which has no rule and no hook.\<close>

definition empty_config :: "'r VeilConfig" where
  "empty_config =
     \<lparr>fileRules = Some [], envRules = Some [], cliRules = Some [],
      injectors = \<lparr>files = None, env = None, directories = None\<rparr>\<rparr>"

text \<open>
  Modelled from the spec: one step of the merge, which appends the rule arrays of the next
  configuration, kind by kind, and lets its hooks override.
\<close>

definition merge2 :: "'r VeilConfig \<Rightarrow> 'r VeilConfig \<Rightarrow> 'r VeilConfig" where
  "merge2 a b =
     \<lparr>fileRules = Some (rules_of (fileRules a) @ rules_of (fileRules b)),
      envRules = Some (rules_of (envRules a) @ rules_of (envRules b)),
      cliRules = Some (rules_of (cliRules a) @ rules_of (cliRules b)),
      injectors =
        \<lparr>files = override (files (injectors a)) (files (injectors b)),
         env = override (env (injectors a)) (env (injectors b)),
         directories = override (directories (injectors a)) (directories (injectors b))\<rparr>\<rparr>"

text \<open>
  Modelled from the spec: \<open>mergeConfigs\<close>, which the tests and examples import from
  \<open>./index\<close> and the sources here do not contain. It concatenates each kind's rule
  arrays across all inputs in argument order, an absent array counting as empty (the
  tests expect a merged array of length 0 there), and merges the injector hooks shallowly.
\<close>

definition mergeConfigs :: "'r VeilConfig list \<Rightarrow> 'r VeilConfig" where
  "mergeConfigs configs = foldl merge2 empty_config configs"

section \<open>Masking\<close>

text \<open>
  \<^verbatim>\<open>applyMask(value, replacement?)\<close>: an absent (\<open>undefined\<close>) replacement is \<open>None\<close>.
  The indices \<open>0\<close> and \<open>length - 1\<close> are only read when \<open>length > 4\<close>.
\<close>

definition applyMask :: "string \<Rightarrow> string option \<Rightarrow> string" where
  "applyMask val repl =
     (case repl of
        Some r \<Rightarrow> r
      | None \<Rightarrow>
          if length val \<le> 4 then ''****''
          else val ! 0 # replicate (min (length val - 2) 8) (CHR ''*'') @ [val ! (length val - 1)])"

section \<open>Pattern matching\<close>

lemma includes_str_sublist: "includes_str t p \<longleftrightarrow> (\<exists>ps ss. t = ps @ p @ ss)"
proof -
  have "includes_str t p \<longleftrightarrow> sublist p t"
    by (induction t) (auto simp: sublist_Cons_right)
  then show ?thesis by (simp add: sublist_def)
qed

lemma includes_str_char: "includes_str s [c] \<longleftrightarrow> c \<in> set s"
  by (induction s) auto

text \<open>
  C2: on a literal string \<open>matchesPattern\<close> is true exactly when the target equals the
  pattern or contains it as a substring, and it writes nothing; on a regular expression
  it is the outcome of the expression's \<open>test\<close> on the target, and what is written is
  what that \<open>test\<close> writes to the expression. The two scenarios:
  \<open>node_modules/pkg\<close> matches \<open>node_modules\<close>, \<open>src/index.ts\<close> does not.
\<close>

theorem matchesPattern_spec:
  "fst (matchesPattern m t (Str p) h) = (t = p \<or> (\<exists>ps ss. t = ps @ p @ ss)) \<and>
   snd (matchesPattern m t (Str p) h) = h \<and>
   fst (matchesPattern m t (Rx a) h) = fst (regexp_test m (h a) t) \<and>
   snd (matchesPattern m t (Rx a) h) = h(a := snd (regexp_test m (h a) t)) \<and>
   fst (matchesPattern m ''node_modules/pkg'' (Str ''node_modules'') h) \<and>
   \<not> fst (matchesPattern m ''src/index.ts'' (Str ''node_modules'') h)"
  by (simp add: matchesPattern_def includes_str_sublist [symmetric] split: prod.splits)

section \<open>The scan of a rule list\<close>

lemma from_step:
  "findMatchingRule_from m t R i h =
     (if i < length R then
        (if fst (matchesPattern m t (match (R ! i)) h)
         then (Some \<lparr>rule = R ! i, index = i\<rparr>, snd (matchesPattern m t (match (R ! i)) h))
         else findMatchingRule_from m t R (Suc i) (snd (matchesPattern m t (match (R ! i)) h)))
      else (None, h))"
  by (subst findMatchingRule_from.simps) (simp add: case_prod_beta)

lemma from_found:
  assumes "i < length R" "matches_at m t R h i"
  shows "k \<le> i \<Longrightarrow> (\<forall>j. k \<le> j \<and> j < i \<longrightarrow> \<not> matches_at m t R h j) \<Longrightarrow>
     findMatchingRule_from m t R k (heap_at m t R h k) =
       (Some \<lparr>rule = R ! i, index = i\<rparr>, heap_at m t R h (Suc i))"
proof (induction "i - k" arbitrary: k)
  case 0
  then have "k = i" by simp
  with assms show ?case
    by (subst from_step) (simp add: matches_at_def)
next
  case (Suc d)
  then have lt: "k < i" and nm: "\<not> matches_at m t R h k" by auto
  have "findMatchingRule_from m t R (Suc k) (heap_at m t R h (Suc k)) =
       (Some \<lparr>rule = R ! i, index = i\<rparr>, heap_at m t R h (Suc i))"
    using Suc by (intro Suc.hyps(1)) auto
  with lt nm assms(1) show ?case
    by (subst from_step) (simp add: matches_at_def)
qed

lemma from_none:
  "k \<le> length R \<Longrightarrow> (\<forall>j. k \<le> j \<and> j < length R \<longrightarrow> \<not> matches_at m t R h j) \<Longrightarrow>
     findMatchingRule_from m t R k (heap_at m t R h k) = (None, heap_at m t R h (length R))"
proof (induction "length R - k" arbitrary: k)
  case 0
  then have "k = length R" by simp
  then show ?case by (subst from_step) simp
next
  case (Suc d)
  then have lt: "k < length R" and nm: "\<not> matches_at m t R h k" by auto
  have "findMatchingRule_from m t R (Suc k) (heap_at m t R h (Suc k)) =
       (None, heap_at m t R h (length R))"
    using Suc by (intro Suc.hyps(1)) auto
  with lt nm show ?case
    by (subst from_step) (simp add: matches_at_def)
qed

lemma findMatchingRule_found:
  "i < length R \<Longrightarrow> matches_at m t R h i \<Longrightarrow> (\<forall>j<i. \<not> matches_at m t R h j) \<Longrightarrow>
     findMatchingRule m t R h = (Some \<lparr>rule = R ! i, index = i\<rparr>, heap_at m t R h (Suc i))"
  using from_found [of i R m t h 0] by (simp add: findMatchingRule_def)

lemma findMatchingRule_none:
  "(\<forall>i<length R. \<not> matches_at m t R h i) \<Longrightarrow>
     findMatchingRule m t R h = (None, heap_at m t R h (length R))"
  using from_none [of 0 R m t h] by (simp add: findMatchingRule_def)

lemma stateless_test:
  "\<not> (is_global r \<or> is_sticky r) \<Longrightarrow> regexp_test m r s = (m r s 0 \<noteq> None, r)"
  by (simp add: regexp_test_def)

lemma matchesPattern_stateless: "stateless h p \<Longrightarrow> snd (matchesPattern m t p h) = h"
  by (cases p) (auto simp: matchesPattern_def stateless_def stateless_test)

lemma heap_at_stateless:
  "(\<forall>j<length R. stateless h (match (R ! j))) \<Longrightarrow> i \<le> length R \<Longrightarrow> heap_at m t R h i = h"
  by (induction i) (auto simp: matchesPattern_stateless)

lemma findMatchingRule_stateless:
  assumes st: "\<forall>j<length R. stateless h (match (R ! j))"
  shows "snd (findMatchingRule m t R h) = h"
proof (cases "\<exists>i<length R. matches_at m t R h i")
  case True
  define i where "i = (LEAST i. i < length R \<and> matches_at m t R h i)"
  from True have a: "i < length R \<and> matches_at m t R h i"
    unfolding i_def by (rule LeastI_ex)
  have b: "\<forall>j<i. \<not> matches_at m t R h j"
  proof (intro allI impI)
    fix j assume "j < i"
    then have "\<not> (j < length R \<and> matches_at m t R h j)"
      unfolding i_def by (rule not_less_Least)
    with \<open>j < i\<close> a show "\<not> matches_at m t R h j" by simp
  qed
  from a b have "findMatchingRule m t R h =
      (Some \<lparr>rule = R ! i, index = i\<rparr>, heap_at m t R h (Suc i))"
    using findMatchingRule_found [of i R m t h] by blast
  moreover from a st have "heap_at m t R h (Suc i) = h"
    by (intro heap_at_stateless) auto
  ultimately show ?thesis by (simp del: heap_at.simps)
next
  case False
  then have "findMatchingRule m t R h = (None, heap_at m t R h (length R))"
    by (simp add: findMatchingRule_none)
  with st show ?thesis by (simp add: heap_at_stateless)
qed

text \<open>
  What the scan does return: the rule at the least index whose test succeeds when the
  scan gets there (\<open>matches_at\<close>), and \<open>None\<close> when no test succeeds. For a list whose
  patterns are strings or expressions without the flags \<open>g\<close> and \<open>y\<close> that test is
  the one on the heap the call started with, and the call leaves that heap as it was.
\<close>

lemma findMatchingRule_scan:
  "(\<forall>i. i < length R \<and> matches_at m t R h i \<and> (\<forall>j<i. \<not> matches_at m t R h j) \<longrightarrow>
        findMatchingRule m t R h =
          (Some \<lparr>rule = R ! i, index = i\<rparr>, heap_at m t R h (Suc i))) \<and>
   ((\<forall>i<length R. \<not> matches_at m t R h i) \<longrightarrow>
        findMatchingRule m t R h = (None, heap_at m t R h (length R))) \<and>
   ((\<forall>j<length R. stateless h (match (R ! j))) \<longrightarrow>
        (\<forall>i<length R. matches_at m t R h i = fst (matchesPattern m t (match (R ! i)) h)) \<and>
        snd (findMatchingRule m t R h) = h)"
proof (intro conjI allI impI)
  fix i assume "i < length R \<and> matches_at m t R h i \<and> (\<forall>j<i. \<not> matches_at m t R h j)"
  then show "findMatchingRule m t R h =
      (Some \<lparr>rule = R ! i, index = i\<rparr>, heap_at m t R h (Suc i))"
    using findMatchingRule_found [of i R m t h] by blast
next
  assume "\<forall>i<length R. \<not> matches_at m t R h i"
  then show "findMatchingRule m t R h = (None, heap_at m t R h (length R))"
    by (rule findMatchingRule_none)
next
  fix i assume "\<forall>j<length R. stateless h (match (R ! j))" "i < length R"
  then show "matches_at m t R h i = fst (matchesPattern m t (match (R ! i)) h)"
    by (simp add: matches_at_def heap_at_stateless)
next
  assume "\<forall>j<length R. stateless h (match (R ! j))"
  then show "snd (findMatchingRule m t R h) = h"
    by (rule findMatchingRule_stateless)
qed

text \<open>
  C1: \<open>findMatchingRule\<close> is to return the rule at the lowest index whose pattern the
  target matches, with that index, and \<open>None\<close> only when no rule's pattern matches.
  One deny rule with the expression \<open>/secret/g\<close> and the target \<open>secret.txt\<close>: the
  first call returns the rule at index 0 and leaves \<open>lastIndex = 6\<close>; the target still
  matches the pattern, and the second call returns \<open>None\<close>. A deny rule and an allow
  rule that hold the same expression \<open>/a/g\<close>, left at \<open>lastIndex = 2\<close>, and the target
  \<open>ab\<close>: the target matches the pattern of the rule at index 0, and the call returns
  the allow rule at index 1.
\<close>

theorem findMatchingRule_skips_matching_rule:
  "fst (findMatchingRule literal_engine ''secret.txt''
         [\<lparr>match = Rx 0, action = Deny, reason = None, replacement = None,
            safeAlternatives = None\<rparr>]
         (\<lambda>a. \<lparr>source = ''secret'', flags = ''g'', lastIndex = 0\<rparr>)) =
     Some \<lparr>rule = \<lparr>match = Rx 0, action = Deny, reason = None, replacement = None,
                    safeAlternatives = None\<rparr>,
           index = 0\<rparr> \<and>
   pattern_matches literal_engine
     (snd (findMatchingRule literal_engine ''secret.txt''
            [\<lparr>match = Rx 0, action = Deny, reason = None, replacement = None,
               safeAlternatives = None\<rparr>]
            (\<lambda>a. \<lparr>source = ''secret'', flags = ''g'', lastIndex = 0\<rparr>)))
     ''secret.txt'' (Rx 0) \<and>
   fst (findMatchingRule literal_engine ''secret.txt''
         [\<lparr>match = Rx 0, action = Deny, reason = None, replacement = None,
            safeAlternatives = None\<rparr>]
         (snd (findMatchingRule literal_engine ''secret.txt''
                [\<lparr>match = Rx 0, action = Deny, reason = None, replacement = None,
                   safeAlternatives = None\<rparr>]
                (\<lambda>a. \<lparr>source = ''secret'', flags = ''g'', lastIndex = 0\<rparr>)))) = None \<and>
   pattern_matches literal_engine (\<lambda>a. \<lparr>source = ''a'', flags = ''g'', lastIndex = 2\<rparr>)
     ''ab'' (Rx 0) \<and>
   fst (findMatchingRule literal_engine ''ab''
         [\<lparr>match = Rx 0, action = Deny, reason = None, replacement = None,
            safeAlternatives = None\<rparr>,
          \<lparr>match = Rx 0, action = Allow, reason = None, replacement = None,
            safeAlternatives = None\<rparr>]
         (\<lambda>a. \<lparr>source = ''a'', flags = ''g'', lastIndex = 2\<rparr>)) =
     Some \<lparr>rule = \<lparr>match = Rx 0, action = Allow, reason = None, replacement = None,
                    safeAlternatives = None\<rparr>,
           index = 1\<rparr>"
  by (simp add: findMatchingRule_def from_step pattern_matches_def matchesPattern_def
      regexp_test_def literal_engine_def is_global_def is_sticky_def)

section \<open>Evaluation and the policy reference\<close>

lemma evaluateRules_stateless:
  "(\<forall>j<length R. stateless h (match (R ! j))) \<Longrightarrow> snd (evaluateRules m t R h) = h"
  using findMatchingRule_stateless [of R h m t]
  by (auto simp: evaluateRules_def split: prod.splits option.splits)

lemma evaluateRules_policyRef:
  "fst (evaluateRules m t R h) = Some e \<Longrightarrow>
     \<exists>i. policyRef e = getRuleTypeName (ev_rule e) @ ''['' @ number_to_string i @ '']''"
  by (auto simp: evaluateRules_def split: prod.splits option.splits)

text \<open>
  C4: for a list of file rules whose first match is at index \<open>i\<close>, the policy reference
  is to be \<open>fileRules[i]\<close>. Three file rules, the target \<open>.env.local\<close> and the first
  match at index 2: the reference that \<open>evaluateRules\<close> builds is \<open>rules[2]\<close>, where
  \<open>generatePolicyRef\<close> on \<open>fileRules\<close> gives \<open>fileRules[2]\<close>.
\<close>

theorem evaluateRules_policyRef_rules:
  "fst (evaluateRules m ''.env.local''
         [\<lparr>match = Str ''node_modules'', action = Deny, reason = None, replacement = None,
            safeAlternatives = None\<rparr>,
          \<lparr>match = Str ''.git'', action = Deny, reason = None, replacement = None,
            safeAlternatives = None\<rparr>,
          \<lparr>match = Str ''.env'', action = Deny, reason = None, replacement = None,
            safeAlternatives = None\<rparr>] h) =
     Some \<lparr>ev_action = Deny,
           ev_rule = \<lparr>match = Str ''.env'', action = Deny, reason = None, replacement = None,
                      safeAlternatives = None\<rparr>,
           policyRef = ''rules[2]''\<rparr> \<and>
   generatePolicyRef ''fileRules'' 2 = ''fileRules[2]''"
  by (simp add: evaluateRules_def findMatchingRule_def from_step matchesPattern_def
      getRuleTypeName_def generatePolicyRef_def number_to_string.simps)

text \<open>
  C8: evaluating the same target against the same rules twice is to give the same
  result. One deny rule whose pattern is the expression \<open>/secret/g\<close> and the target
  \<open>secret.txt\<close>: the first evaluation returns the deny rule and leaves \<open>lastIndex = 6\<close>
  in the expression, and the second evaluation, on the heap the first one left, returns
  \<open>None\<close>.
\<close>

theorem evaluateRules_global_regexp_alternates:
  "fst (evaluateRules literal_engine ''secret.txt''
         [\<lparr>match = Rx 0, action = Deny, reason = None, replacement = None,
            safeAlternatives = None\<rparr>]
         (\<lambda>a. \<lparr>source = ''secret'', flags = ''g'', lastIndex = 0\<rparr>)) =
     Some \<lparr>ev_action = Deny,
           ev_rule = \<lparr>match = Rx 0, action = Deny, reason = None, replacement = None,
                      safeAlternatives = None\<rparr>,
           policyRef = ''rules[0]''\<rparr> \<and>
   snd (evaluateRules literal_engine ''secret.txt''
         [\<lparr>match = Rx 0, action = Deny, reason = None, replacement = None,
            safeAlternatives = None\<rparr>]
         (\<lambda>a. \<lparr>source = ''secret'', flags = ''g'', lastIndex = 0\<rparr>)) 0 =
     \<lparr>source = ''secret'', flags = ''g'', lastIndex = 6\<rparr> \<and>
   fst (evaluateRules literal_engine ''secret.txt''
         [\<lparr>match = Rx 0, action = Deny, reason = None, replacement = None,
            safeAlternatives = None\<rparr>]
         (snd (evaluateRules literal_engine ''secret.txt''
                [\<lparr>match = Rx 0, action = Deny, reason = None, replacement = None,
                   safeAlternatives = None\<rparr>]
                (\<lambda>a. \<lparr>source = ''secret'', flags = ''g'', lastIndex = 0\<rparr>)))) = None"
  by (simp add: evaluateRules_def findMatchingRule_def from_step matchesPattern_def
      getRuleTypeName_def number_to_string.simps regexp_test_def literal_engine_def
      is_global_def is_sticky_def)

section \<open>Properties of masking\<close>

lemma applyMask_long:
  "4 < length u \<Longrightarrow>
     applyMask u None = hd u # replicate (min (length u - 2) 8) (CHR ''*'') @ [last u]"
  by (cases u) (auto simp: applyMask_def last_conv_nth)

lemma applyMask_interior_hidden:
  "4 < length v \<Longrightarrow> length w = length v \<Longrightarrow> hd w = hd v \<Longrightarrow> last w = last v \<Longrightarrow>
     applyMask w None = applyMask v None"
  using applyMask_long [of v] applyMask_long [of w] by simp

text \<open>
  C3: a replacement that is supplied is returned unchanged. Without one, a value of at
  most four characters gives \<open>****\<close>, and a longer value gives its first character,
  \<open>min (length - 2) 8\<close> asterisks, which is between 1 and 8 of them, and its last
  character. Nothing of the interior of the value shows: two values of the same length
  with the same first and last character have the same mask.
\<close>

theorem applyMask_spec:
  "applyMask v (Some r) = r \<and>
   (length v \<le> 4 \<longrightarrow> applyMask v None = ''****'') \<and>
   (4 < length v \<longrightarrow>
      applyMask v None = hd v # replicate (min (length v - 2) 8) (CHR ''*'') @ [last v] \<and>
      1 \<le> min (length v - 2) 8 \<and> min (length v - 2) 8 \<le> 8 \<and>
      (\<forall>w. length w = length v \<and> hd w = hd v \<and> last w = last v \<longrightarrow>
           applyMask w None = applyMask v None))"
proof (intro conjI impI allI)
  show "applyMask v (Some r) = r"
    by (simp add: applyMask_def)
next
  assume "length v \<le> 4"
  then show "applyMask v None = ''****''"
    by (simp add: applyMask_def)
next
  assume "4 < length v"
  then show "applyMask v None = hd v # replicate (min (length v - 2) 8) (CHR ''*'') @ [last v]"
    by (rule applyMask_long)
next
  assume "4 < length v"
  then show "1 \<le> min (length v - 2) 8"
    by simp
next
  show "min (length v - 2) 8 \<le> 8"
    by simp
next
  fix w
  assume "4 < length v" and "length w = length v \<and> hd w = hd v \<and> last w = last v"
  then show "applyMask w None = applyMask v None"
    by (intro applyMask_interior_hidden) simp_all
qed

theorem applyMask_spec_witness:
  "applyMask ''anything'' (Some ''[REDACTED]'') = ''[REDACTED]'' \<and>
   applyMask ''key'' None = ''****'' \<and>
   applyMask ''short'' None = ''s***t'' \<and>
   applyMask ''smart'' None = applyMask ''short'' None"
  using applyMask_spec [of "''anything''" "''[REDACTED]''"] applyMask_spec [of "''key''"]
    applyMask_spec [of "''short''"]
  by (simp add: applyMask_def)

text \<open>
  C9: a replacement that is supplied is returned verbatim, also when it is the empty
  string: only an absent replacement triggers the default mask.
\<close>

theorem applyMask_empty_replacement: "applyMask v (Some '''') = ''''"
  by (simp add: applyMask_def)

section \<open>Rule packs\<close>

lemma set_rules_eq:
  "map_of (set_rules ids cfg) =
     (\<lambda>k. if k \<in> set ids then Some (Severity Error) else map_of cfg k)"
  by (induction ids arbitrary: cfg) (auto simp: fun_eq_iff update_conv')

lemma pack_rule_ids_Cons_own:
  "map_of RULE_PACKS p = Some pk \<Longrightarrow>
     pack_rule_ids (p # ps) = set (rules pk) \<union> pack_rule_ids ps"
  by (auto simp: pack_rule_ids_def)

lemma pack_rule_ids_Cons_none:
  "map_of RULE_PACKS p = None \<Longrightarrow> pack_rule_ids (p # ps) = pack_rule_ids ps"
  by (auto simp: pack_rule_ids_def)

lemma pack_rule_ids_cong: "set qs = set ps \<Longrightarrow> pack_rule_ids qs = pack_rule_ids ps"
  by (simp add: pack_rule_ids_def)

lemma fromPacks_loop_eq:
  "\<forall>p \<in> set ps. get_property RULE_PACKS p \<noteq> Inherited \<Longrightarrow>
     \<exists>cfg'. fromPacks_loop ps (cfg, w) =
       Inr (cfg', w @ map unknown_pack_warning
                        (filter (\<lambda>p. map_of RULE_PACKS p = None) ps)) \<and>
       map_of cfg' =
         (\<lambda>k. if k \<in> pack_rule_ids ps then Some (Severity Error) else map_of cfg k)"
proof (induction ps arbitrary: cfg w)
  case Nil
  then show ?case by (simp add: pack_rule_ids_def)
next
  case (Cons p ps)
  then have rest: "\<forall>p \<in> set ps. get_property RULE_PACKS p \<noteq> Inherited" by simp
  show ?case
  proof (cases "map_of RULE_PACKS p")
    case None
    with Cons.prems have "get_property RULE_PACKS p = Undefined"
      by (auto simp: get_property_def)
    with None Cons.IH [OF rest, of cfg "w @ [unknown_pack_warning p]"] show ?thesis
      by (auto simp: pack_rule_ids_Cons_none)
  next
    case (Some pk)
    then have "get_property RULE_PACKS p = Own pk"
      by (simp add: get_property_def)
    with Some Cons.IH [OF rest, of "set_rules (rules pk) cfg" w] show ?thesis
      by (auto simp: pack_rule_ids_Cons_own set_rules_eq fun_eq_iff)
  qed
qed

text \<open>
  Without a name that \<open>RULE_PACKS\<close> inherits, \<open>fromPacks\<close> returns: the configuration
  maps the rule ids of the named packs to \<open>error\<close> and nothing else, and there is one
  warning for each name that is not a pack.
\<close>

lemma fromPacks_no_inherited:
  assumes "\<forall>p \<in> set ps. get_property RULE_PACKS p \<noteq> Inherited"
  shows "\<exists>cfg. fromPacks ps =
           Inr (cfg, map unknown_pack_warning
                      (filter (\<lambda>p. map_of RULE_PACKS p = None) ps)) \<and>
           map_of cfg =
             (\<lambda>k. if k \<in> pack_rule_ids ps then Some (Severity Error) else None)"
proof -
  from fromPacks_loop_eq [OF assms, of "[]" "[]"] obtain cfg where
    "fromPacks_loop ps ([], []) = Inr (cfg, [] @ map unknown_pack_warning
        (filter (\<lambda>p. map_of RULE_PACKS p = None) ps))"
    "map_of cfg =
       (\<lambda>k. if k \<in> pack_rule_ids ps then Some (Severity Error) else map_of [] k)"
    by blast
  then show ?thesis
    by (simp add: fromPacks_def cong: if_cong)
qed

lemma known_own:
  "p \<in> fst ` set RULE_PACKS \<Longrightarrow>
     get_property RULE_PACKS p \<noteq> Inherited \<and> map_of RULE_PACKS p \<noteq> None"
  by (auto simp: get_property_def map_of_eq_None_iff split: option.splits)

lemma fromPacks_known:
  assumes "set ps \<subseteq> fst ` set RULE_PACKS"
  shows "\<exists>cfg. fromPacks ps = Inr (cfg, []) \<and>
           map_of cfg =
             (\<lambda>k. if k \<in> pack_rule_ids ps then Some (Severity Error) else None)"
proof -
  have own: "\<forall>p \<in> set ps. get_property RULE_PACKS p \<noteq> Inherited"
    and some: "\<forall>p \<in> set ps. map_of RULE_PACKS p \<noteq> None"
    using assms known_own by blast+
  from some have "filter (\<lambda>p. map_of RULE_PACKS p = None) ps = []"
    by (simp add: filter_empty_conv)
  with fromPacks_no_inherited [OF own] show ?thesis by simp
qed

text \<open>
  C7: \<open>fromPacks\<close> is to report a name that is not a pack, skip it and never throw.
  \<open>constructor\<close> is not a pack, and \<^verbatim>\<open>fromPacks("constructor")\<close> throws a
  \<open>TypeError\<close>: the lookup finds the member that \<open>RULE_PACKS\<close> inherits.
\<close>

theorem fromPacks_inherited_throws: "fromPacks [''constructor''] = Inl TypeError"
  by (simp add: fromPacks_def get_property_def RULE_PACKS_def Object_prototype_keys_def)

text \<open>
  C10: on names of packs, \<open>fromPacks\<close> gives the same configuration whatever the
  order of the names and however often a name is repeated: two argument lists with the
  same set of names give the same mapping from rule ids to severities, it warns about
  nothing, its keys are the rule ids of the named packs and every severity is \<open>error\<close>.
\<close>

theorem fromPacks_known_order_repetition:
  assumes "set ps \<subseteq> fst ` set RULE_PACKS" and "set qs = set ps"
  shows "\<exists>cp cq. fromPacks ps = Inr (cp, []) \<and> fromPacks qs = Inr (cq, []) \<and>
           map_of cq = map_of cp \<and> dom (map_of cp) = pack_rule_ids ps \<and>
           (\<forall>k v. map_of cp k = Some v \<longrightarrow> v = Severity Error)"
proof -
  from assms have "set qs \<subseteq> fst ` set RULE_PACKS" by simp
  from fromPacks_known [OF this] obtain cq where
    cq: "fromPacks qs = Inr (cq, [])"
      "map_of cq = (\<lambda>k. if k \<in> pack_rule_ids qs then Some (Severity Error) else None)"
    by blast
  from fromPacks_known [OF assms(1)] obtain cp where
    cp: "fromPacks ps = Inr (cp, [])"
      "map_of cp = (\<lambda>k. if k \<in> pack_rule_ids ps then Some (Severity Error) else None)"
    by blast
  have same: "map_of cq = map_of cp"
    using cq(2) cp(2) pack_rule_ids_cong [OF assms(2)] by simp
  have keys: "dom (map_of cp) = pack_rule_ids ps"
    using cp(2) by (auto simp: dom_def)
  have sev: "\<forall>k v. map_of cp k = Some v \<longrightarrow> v = Severity Error"
    using cp(2) by (auto split: if_splits)
  from cp(1) cq(1) same keys sev show ?thesis by blast
qed

theorem fromPacks_known_order_repetition_witness:
  "\<exists>cp cq. fromPacks [''minimal'', ''context:ci''] = Inr (cp, []) \<and>
      fromPacks [''context:ci'', ''minimal'', ''minimal''] = Inr (cq, []) \<and>
      map_of cq = map_of cp \<and> ''env/mask-aws'' \<in> dom (map_of cp)"
proof -
  have known: "set [''minimal'', ''context:ci''] \<subseteq> fst ` set RULE_PACKS"
    by (simp add: RULE_PACKS_def)
  have same: "set [''context:ci'', ''minimal'', ''minimal''] = set [''minimal'', ''context:ci'']"
    by auto
  have "map_of RULE_PACKS ''context:ci'' \<noteq> None"
    by (simp add: RULE_PACKS_def)
  then obtain pk where pk: "map_of RULE_PACKS ''context:ci'' = Some pk"
    by blast
  then have "''env/mask-aws'' \<in> set (rules pk)"
    by (auto simp: RULE_PACKS_def)
  with pk have "''env/mask-aws'' \<in> pack_rule_ids [''minimal'', ''context:ci'']"
    unfolding pack_rule_ids_def by auto
  with fromPacks_known_order_repetition [OF known same] show ?thesis
    by auto
qed

section \<open>Reading a configuration from JSON\<close>

lemma regex_like_eq: "(startsWith s ''^'' \<or> includes_str s ''|'') = regex_like s"
  by (cases s) (auto simp: startsWith_def regex_like_def includes_str_char)

lemma convertMatch_ok:
  "(\<forall>s. mt = PString s \<and> regex_like s \<longrightarrow> valid s ''i'') \<Longrightarrow>
     \<exists>mt'. convertMatch valid esc mt = Inr mt' \<and> converted_rule esc (mt, rest) (mt', rest)"
  by (cases mt) (auto simp: convertMatch_def new_RegExp_def regex_like_eq converted_rule_def)

lemma map_rules_ok:
  "(\<forall>s rest. (PString s, rest) \<in> set rs \<and> regex_like s \<longrightarrow> valid s ''i'') \<Longrightarrow>
     \<exists>rs'. map_rules valid esc rs = Inr rs' \<and> length rs' = length rs \<and>
           (\<forall>i<length rs. converted_rule esc (rs ! i) (rs' ! i))"
proof (induction rs)
  case Nil
  then show ?case by simp
next
  case (Cons r rs)
  obtain mt rest where r: "r = (mt, rest)" by (cases r)
  from Cons.prems r obtain mt' where
    mt': "convertMatch valid esc mt = Inr mt'" "converted_rule esc (mt, rest) (mt', rest)"
    using convertMatch_ok [of mt valid esc rest] by auto
  from Cons obtain rs' where
    rs': "map_rules valid esc rs = Inr rs'" "length rs' = length rs"
      "\<forall>i<length rs. converted_rule esc (rs ! i) (rs' ! i)"
    by auto
  have "\<forall>i<length (r # rs). converted_rule esc ((r # rs) ! i) (((mt', rest) # rs') ! i)"
    using mt'(2) rs'(3) r by (auto simp: nth_Cons split: nat.splits)
  with mt'(1) rs'(1,2) r show ?case by simp
qed

lemma map_list_ok:
  assumes "\<forall>s \<in> regex_sources l. valid s ''i''"
  shows "\<exists>l'. map_list valid esc l = Inr l' \<and> converted_list esc l l'"
proof (cases l)
  case None
  then show ?thesis by (simp add: map_list_def converted_list_def)
next
  case (Some rs)
  with assms have "\<forall>s rest. (PString s, rest) \<in> set rs \<and> regex_like s \<longrightarrow> valid s ''i''"
    by (auto simp: regex_sources_def)
  then have "\<exists>rs'. map_rules valid esc rs = Inr rs' \<and> length rs' = length rs \<and>
           (\<forall>i<length rs. converted_rule esc (rs ! i) (rs' ! i))"
    by (rule map_rules_ok [of rs valid esc])
  with Some show ?thesis
    by (auto simp: map_list_def converted_list_def)
qed

text \<open>
  C5, as amended: when the runtime accepts, as the pattern of a case-insensitive
  expression, every string match that begins with \<open>^\<close> or contains \<open>|\<close>,
  \<open>parseJsonConfig\<close> returns a configuration in which each such match is a new
  case-insensitive expression made from that string, whose source is the string as the
  runtime escapes it; every other string match is the same literal string and every
  other match is passed through; each of the three lists keeps its presence, its
  length, its order and the remaining fields of its rules.
\<close>

theorem parseJsonConfig_converts:
  assumes "\<forall>s \<in> regex_sources (fileRules cfg) \<union> regex_sources (envRules cfg) \<union>
             regex_sources (cliRules cfg). valid s ''i''"
  shows "\<exists>out. parseJsonConfig valid esc cfg = Inr out \<and>
           converted_list esc (fileRules cfg) (fileRules out) \<and>
           converted_list esc (envRules cfg) (envRules out) \<and>
           converted_list esc (cliRules cfg) (cliRules out)"
proof -
  from assms obtain fs where
    fs: "map_list valid esc (fileRules cfg) = Inr fs" "converted_list esc (fileRules cfg) fs"
    using map_list_ok [of "fileRules cfg" valid esc] by auto
  from assms obtain es where
    es: "map_list valid esc (envRules cfg) = Inr es" "converted_list esc (envRules cfg) es"
    using map_list_ok [of "envRules cfg" valid esc] by auto
  from assms obtain cs where
    cs: "map_list valid esc (cliRules cfg) = Inr cs" "converted_list esc (cliRules cfg) cs"
    using map_list_ok [of "cliRules cfg" valid esc] by auto
  from fs es cs show ?thesis by (simp add: parseJsonConfig_def)
qed

theorem parseJsonConfig_converts_witness:
  "\<exists>out. parseJsonConfig rejects_unclosed_group escape_slashes
            \<lparr>fileRules = Some [(PString ''^secrets/'', Deny)],
             envRules = Some [(PString ''API_KEY|SECRET'', Mask), (POther (0::nat), Allow)],
             cliRules = Some [(PString ''rm -rf'', Deny)]\<rparr> = Inr out \<and>
          fileRules out =
            Some [(CRegExp \<lparr>source = ''^secrets'' @ [CHR 0x5C, CHR ''/''], flags = ''i'',
                             lastIndex = 0\<rparr>, Deny)] \<and>
          envRules out =
            Some [(CRegExp \<lparr>source = ''API_KEY|SECRET'', flags = ''i'', lastIndex = 0\<rparr>, Mask),
                  (COther 0, Allow)] \<and>
          cliRules out = Some [(CString ''rm -rf'', Deny)]"
proof -
  let ?cfg = "\<lparr>fileRules = Some [(PString ''^secrets/'', Deny)],
               envRules = Some [(PString ''API_KEY|SECRET'', Mask), (POther (0::nat), Allow)],
               cliRules = Some [(PString ''rm -rf'', Deny)]\<rparr>"
  have "\<forall>s \<in> regex_sources (fileRules ?cfg) \<union> regex_sources (envRules ?cfg) \<union>
             regex_sources (cliRules ?cfg). rejects_unclosed_group s ''i''"
    by (auto simp: regex_sources_def rejects_unclosed_group_def)
  from parseJsonConfig_converts [of ?cfg rejects_unclosed_group escape_slashes, OF this]
  obtain out where
    out: "parseJsonConfig rejects_unclosed_group escape_slashes ?cfg = Inr out"
    by blast
  then have "out = \<lparr>fileRules =
            Some [(CRegExp \<lparr>source = ''^secrets'' @ [CHR 0x5C, CHR ''/''], flags = ''i'',
                             lastIndex = 0\<rparr>, Deny)],
          envRules =
            Some [(CRegExp \<lparr>source = ''API_KEY|SECRET'', flags = ''i'', lastIndex = 0\<rparr>, Mask),
                  (COther 0, Allow)],
          cliRules = Some [(CString ''rm -rf'', Deny)]\<rparr>"
    by (simp add: parseJsonConfig_def map_list_def convertMatch_def new_RegExp_def
        startsWith_def rejects_unclosed_group_def escape_slashes_def)
  with out show ?thesis by simp
qed

text \<open>
  The claim as it was stated fails twice. On a configuration whose only rule has the
  match \<open>^(\<close> the runtime rejects the pattern (its group is not closed), and
  \<open>parseJsonConfig\<close> throws a \<open>SyntaxError\<close> where a converted rule was claimed. On the
  match \<open>^secrets/\<close> the expression is made, and its source is not that string: the
  \<open>/\<close> comes out with a backslash before it.
\<close>

theorem parseJsonConfig_throws_or_escapes:
  "parseJsonConfig rejects_unclosed_group escape_slashes
     \<lparr>fileRules = Some [(PString ''^('', Deny) :: unit parsed_match \<times> rule_action],
      envRules = None, cliRules = None\<rparr> = Inl SyntaxError \<and>
   parseJsonConfig rejects_unclosed_group escape_slashes
     \<lparr>fileRules = Some [(PString ''^secrets/'', Deny) :: unit parsed_match \<times> rule_action],
      envRules = None, cliRules = None\<rparr> =
     Inr \<lparr>fileRules =
            Some [(CRegExp \<lparr>source = ''^secrets'' @ [CHR 0x5C, CHR ''/''], flags = ''i'',
                             lastIndex = 0\<rparr>, Deny)],
          envRules = None, cliRules = None\<rparr> \<and>
   ''^secrets'' @ [CHR 0x5C, CHR ''/''] \<noteq> ''^secrets/''"
  by (simp add: parseJsonConfig_def map_list_def convertMatch_def new_RegExp_def startsWith_def
      rejects_unclosed_group_def escape_slashes_def)

section \<open>Merging configurations\<close>

text \<open>
  C6: for each kind of rule, \<open>mergeConfigs\<close> of two configurations holds the rules of
  the first followed by the rules of the second, so its length is the sum of the two
  lengths and no rule is moved, dropped or merged with an equal one.
\<close>

theorem mergeConfigs_concatenates:
  "fileRules (mergeConfigs [cfgA, cfgB]) =
     Some (rules_of (fileRules cfgA) @ rules_of (fileRules cfgB)) \<and>
   envRules (mergeConfigs [cfgA, cfgB]) =
     Some (rules_of (envRules cfgA) @ rules_of (envRules cfgB)) \<and>
   cliRules (mergeConfigs [cfgA, cfgB]) =
     Some (rules_of (cliRules cfgA) @ rules_of (cliRules cfgB)) \<and>
   length (rules_of (fileRules (mergeConfigs [cfgA, cfgB]))) =
     length (rules_of (fileRules cfgA)) + length (rules_of (fileRules cfgB)) \<and>
   length (rules_of (envRules (mergeConfigs [cfgA, cfgB]))) =
     length (rules_of (envRules cfgA)) + length (rules_of (envRules cfgB)) \<and>
   length (rules_of (cliRules (mergeConfigs [cfgA, cfgB]))) =
     length (rules_of (cliRules cfgA)) + length (rules_of (cliRules cfgB))"
  by (simp add: mergeConfigs_def merge2_def empty_config_def rules_of_def)

end
